theory Spec2Isabelle
  imports Main "HOL-Library.Word"
begin

section \<open>JavaScript values\<close>

text \<open>
  A JavaScript string is a sequence of UTF-16 code units; \<open>js\<close> turns an ASCII literal
  of the source into one.
\<close>

type_synonym cu = "16 word"
type_synonym jstring = "cu list"

definition js :: "string \<Rightarrow> jstring" where
  "js s = map (\<lambda>c. of_nat (of_char c)) s"

text \<open>
  The handle that \<open>newrelic.getTransaction()\<close> returns: the handle of a transaction of the
  agent, or the stub the agent hands out when no transaction is active.
\<close>

datatype txn = Txn nat | TxnStub

text \<open>
  Values that are stored in a property or travel as a token. Arrays and plain objects are
  the data that \<open>JSON.parse\<close> builds; the code never mutates them, so they are carried by
  value, an object as the list of its properties (distinct keys, in the order in which
  the object lists them; that JavaScript lists integer-like keys first is not modelled,
  and objects are compared with their properties in the same order).
  A number is carried as its JSON literal: its conversion to an IEEE double is outside
  the model.
\<close>

datatype jsval =
    JUndefined
  | JNull
  | JBool bool
  | JNum jstring
  | JStr jstring
  | JArr "jsval list"
  | JObj "(jstring \<times> jsval) list"
  | JTxn txn

text \<open>
  What a caller can pass as \<open>traceContext: unknown\<close>: a primitive, or a reference to a
  mutable object of the store (the trace context itself).
\<close>

type_synonym addr = nat

datatype ctxval =
    CUndefined
  | CNull
  | CBool bool
  | CNum jstring
  | CStr jstring
  | CRef addr

text \<open>Errors as values: what a \<open>throw\<close> or a rejected promise carries.\<close>

datatype jserr =
    Error jstring
  | TypeError
  | SyntaxError
  | Thrown jsval

type_synonym 'a result = "jserr + 'a"

subsection \<open>ToBoolean and ToString\<close>

text \<open>
  A number literal denotes zero when its mantissa has no digit from 1 to 9 (literals
  that underflow to zero as doubles are outside the model).
\<close>

definition num_truthy :: "jstring \<Rightarrow> bool" where
  "num_truthy lit =
     (\<exists>c \<in> set (takeWhile (\<lambda>c. c \<noteq> 0x65 \<and> c \<noteq> 0x45) lit). 0x31 \<le> c \<and> c \<le> 0x39)"

fun truthy :: "jsval \<Rightarrow> bool" where
  "truthy JUndefined = False"
| "truthy JNull = False"
| "truthy (JBool b) = b"
| "truthy (JNum n) = num_truthy n"
| "truthy (JStr s) = (s \<noteq> [])"
| "truthy (JArr _) = True"
| "truthy (JObj _) = True"
| "truthy (JTxn _) = True"

fun truthy_ctx :: "ctxval \<Rightarrow> bool" where
  "truthy_ctx CUndefined = False"
| "truthy_ctx CNull = False"
| "truthy_ctx (CBool b) = b"
| "truthy_ctx (CNum n) = num_truthy n"
| "truthy_ctx (CStr s) = (s \<noteq> [])"
| "truthy_ctx (CRef _) = True"

fun join :: "jstring \<Rightarrow> jstring list \<Rightarrow> jstring" where
  "join sep [] = []"
| "join sep [s] = s"
| "join sep (s # t # ss) = s @ sep @ join sep (t # ss)"

text \<open>
  The conversion a template literal applies. A number prints as its literal (exact for
  literals in the canonical form of \<open>Number.prototype.toString\<close>).
\<close>

fun to_string :: "jsval \<Rightarrow> jstring" where
  "to_string JUndefined = js ''undefined''"
| "to_string JNull = js ''null''"
| "to_string (JBool b) = (if b then js ''true'' else js ''false'')"
| "to_string (JNum n) = n"
| "to_string (JStr s) = s"
| "to_string (JArr vs) =
     join (js '','')
       (map (\<lambda>v. if v = JUndefined \<or> v = JNull then [] else to_string v) vs)"
| "to_string (JObj _) = js ''[object Object]''"
| "to_string (JTxn _) = js ''[object Object]''"

section \<open>JSON\<close>

subsection \<open>\<open>JSON.stringify\<close> of a header object\<close>

definition is_high_surrogate :: "cu \<Rightarrow> bool" where
  "is_high_surrogate c = (0xD800 \<le> c \<and> c \<le> 0xDBFF)"

definition is_low_surrogate :: "cu \<Rightarrow> bool" where
  "is_low_surrogate c = (0xDC00 \<le> c \<and> c \<le> 0xDFFF)"

definition hex_digit :: "nat \<Rightarrow> cu" where
  "hex_digit n = of_nat (if n < 10 then 0x30 + n else 0x57 + n)"

text \<open>\<open>\uXXXX\<close> with four lowercase hexadecimal digits.\<close>

definition unicode_escape :: "cu \<Rightarrow> jstring" where
  "unicode_escape c =
     [0x5C, 0x75,
      hex_digit (unat c div 4096),
      hex_digit (unat c div 256 mod 16),
      hex_digit (unat c div 16 mod 16),
      hex_digit (unat c mod 16)]"

text \<open>
  The body of QuoteJSONString: the seven short escapes, \<open>\u\<close> escapes for the other
  control characters and for a surrogate that is not part of a pair, every other code
  unit as it is.
\<close>

fun quote_units :: "jstring \<Rightarrow> jstring" where
  "quote_units [] = []"
| "quote_units (c # cs) =
     (if c = 0x08 then [0x5C, 0x62] @ quote_units cs
      else if c = 0x09 then [0x5C, 0x74] @ quote_units cs
      else if c = 0x0A then [0x5C, 0x6E] @ quote_units cs
      else if c = 0x0C then [0x5C, 0x66] @ quote_units cs
      else if c = 0x0D then [0x5C, 0x72] @ quote_units cs
      else if c = 0x22 then [0x5C, 0x22] @ quote_units cs
      else if c = 0x5C then [0x5C, 0x5C] @ quote_units cs
      else if c < 0x20 then unicode_escape c @ quote_units cs
      else if is_high_surrogate c then
        (case cs of
           [] \<Rightarrow> unicode_escape c
         | d # ds \<Rightarrow>
             if is_low_surrogate d then c # d # quote_units ds
             else unicode_escape c @ quote_units cs)
      else if is_low_surrogate c then unicode_escape c @ quote_units cs
      else c # quote_units cs)"

definition quote :: "jstring \<Rightarrow> jstring" where
  "quote s = [0x22] @ quote_units s @ [0x22]"

text \<open>
  \<open>JSON.stringify\<close> of an object whose property values are strings, without indentation:
  the properties in order, each as \<open>"key":"value"\<close>, separated by commas, in braces.
\<close>

definition json_property :: "jstring \<times> jstring \<Rightarrow> jstring" where
  "json_property p = quote (fst p) @ [0x3A] @ quote (snd p)"

definition JSON_stringify :: "(jstring \<times> jstring) list \<Rightarrow> jstring" where
  "JSON_stringify hs = [0x7B] @ join [0x2C] (map json_property hs) @ [0x7D]"

subsection \<open>\<open>JSON.parse\<close>: the lexer\<close>

datatype token =
    TLBrace | TRBrace | TLBrack | TRBrack | TColon | TComma
  | TStr jstring | TNum jstring | TTrue | TFalse | TNull

definition is_ws :: "cu \<Rightarrow> bool" where
  "is_ws c = (c = 0x09 \<or> c = 0x0A \<or> c = 0x0D \<or> c = 0x20)"

definition is_digit :: "cu \<Rightarrow> bool" where
  "is_digit c = (0x30 \<le> c \<and> c \<le> 0x39)"

definition hex_value :: "cu \<Rightarrow> nat option" where
  "hex_value c =
     (let n = unat c in
      if 0x30 \<le> n \<and> n \<le> 0x39 then Some (n - 0x30)
      else if 0x61 \<le> n \<and> n \<le> 0x66 then Some (n - 0x57)
      else if 0x41 \<le> n \<and> n \<le> 0x46 then Some (n - 0x37)
      else None)"

definition hex4 :: "cu \<Rightarrow> cu \<Rightarrow> cu \<Rightarrow> cu \<Rightarrow> cu option" where
  "hex4 a b c d =
     (case (hex_value a, hex_value b, hex_value c, hex_value d) of
        (Some x, Some y, Some z, Some w) \<Rightarrow> Some (of_nat (4096 * x + 256 * y + 16 * z + w))
      | _ \<Rightarrow> None)"

definition unescape :: "cu \<Rightarrow> cu option" where
  "unescape e =
     (if e = 0x22 then Some 0x22
      else if e = 0x5C then Some 0x5C
      else if e = 0x2F then Some 0x2F
      else if e = 0x62 then Some 0x08
      else if e = 0x66 then Some 0x0C
      else if e = 0x6E then Some 0x0A
      else if e = 0x72 then Some 0x0D
      else if e = 0x74 then Some 0x09
      else None)"

definition cons_fst :: "'a \<Rightarrow> ('a list \<times> 'b) option \<Rightarrow> ('a list \<times> 'b) option" where
  "cons_fst x r = map_option (\<lambda>(s, rest). (x # s, rest)) r"

text \<open>
  The characters of a string after its opening quote, up to the closing quote: the
  string's value and the input that follows. A raw control character, an unknown escape
  and a missing closing quote are syntax errors.
\<close>

fun string_chars :: "jstring \<Rightarrow> (jstring \<times> jstring) option" where
  "string_chars [] = None"
| "string_chars (c # cs) =
     (if c = 0x22 then Some ([], cs)
      else if c = 0x5C then
        (case cs of
           [] \<Rightarrow> None
         | e # es \<Rightarrow>
             if e = 0x75 then
               (case es of
                  h1 # h2 # h3 # h4 # rest \<Rightarrow>
                    (case hex4 h1 h2 h3 h4 of
                       None \<Rightarrow> None
                     | Some u \<Rightarrow> cons_fst u (string_chars rest))
                | _ \<Rightarrow> None)
             else
               (case unescape e of
                  None \<Rightarrow> None
                | Some d \<Rightarrow> cons_fst d (string_chars es)))
      else if c < 0x20 then None
      else cons_fst c (string_chars cs))"

text \<open>
  A number: \<open>-? (0 | [1-9][0-9]*) (. [0-9]+)? ([eE] [+-]? [0-9]+)?\<close>, the longest
  such prefix. Each part gives what it read and the input that follows.
\<close>

definition digits :: "jstring \<Rightarrow> jstring \<times> jstring" where
  "digits cs = (takeWhile is_digit cs, dropWhile is_digit cs)"

definition int_part :: "jstring \<Rightarrow> (jstring \<times> jstring) option" where
  "int_part cs =
     (case cs of
        [] \<Rightarrow> None
      | c # r \<Rightarrow>
          if c = 0x30 then Some ([c], r)
          else if is_digit c then Some (c # fst (digits r), snd (digits r))
          else None)"

definition frac_part :: "jstring \<Rightarrow> jstring \<times> jstring" where
  "frac_part cs =
     (case cs of
        c # d # r \<Rightarrow>
          if c = 0x2E \<and> is_digit d then (c # d # fst (digits r), snd (digits r))
          else ([], cs)
      | _ \<Rightarrow> ([], cs))"

definition exp_part :: "jstring \<Rightarrow> jstring \<times> jstring" where
  "exp_part cs =
     (case cs of
        e # d # r \<Rightarrow>
          if (e = 0x65 \<or> e = 0x45) \<and> is_digit d then
            (e # d # fst (digits r), snd (digits r))
          else if (e = 0x65 \<or> e = 0x45) \<and> (d = 0x2B \<or> d = 0x2D) then
            (case r of
               d' # r' \<Rightarrow>
                 if is_digit d' then (e # d # d' # fst (digits r'), snd (digits r'))
                 else ([], cs)
             | [] \<Rightarrow> ([], cs))
          else ([], cs)
      | _ \<Rightarrow> ([], cs))"

definition number :: "jstring \<Rightarrow> (jstring \<times> jstring) option" where
  "number cs =
     (let (sign, r0) = (case cs of c # r \<Rightarrow> if c = 0x2D then ([c], r) else ([], cs)
                        | [] \<Rightarrow> ([], cs))
      in case int_part r0 of
           None \<Rightarrow> None
         | Some (i, r1) \<Rightarrow>
             let (f, r2) = frac_part r1;
                 (e, r3) = exp_part r2
             in Some (sign @ i @ f @ e, r3))"

definition cons_tok :: "token \<Rightarrow> token list option \<Rightarrow> token list option" where
  "cons_tok t r = map_option (\<lambda>ts. t # ts) r"

text \<open>
  Where the input starts with the word \<open>w\<close>, what follows it.
\<close>

fun strip_prefix :: "jstring \<Rightarrow> jstring \<Rightarrow> jstring option" where
  "strip_prefix [] cs = Some cs"
| "strip_prefix (w # ws) [] = None"
| "strip_prefix (w # ws) (c # cs) = (if w = c then strip_prefix ws cs else None)"

lemma string_chars_shorter:
  "string_chars cs = Some (s, rest) \<Longrightarrow> length rest < length cs"
proof (induction cs arbitrary: s rest rule: string_chars.induct)
  case 1
  then show ?case by simp
next
  case (2 c cs)
  show ?case
  proof (cases "c = 0x22")
    case True
    with "2.prems" show ?thesis by simp
  next
    case quote: False
    show ?thesis
    proof (cases "c = 0x5C")
      case False
      with quote "2.prems" obtain s' where "string_chars cs = Some (s', rest)"
        by (auto simp: cons_fst_def split: if_splits)
      with "2.IH"(3) [OF quote False] "2.prems" quote False show ?thesis
        by (fastforce simp: cons_fst_def split: if_splits)
    next
      case True
      show ?thesis
      proof (cases cs)
        case Nil
        with "2.prems" quote True show ?thesis by simp
      next
        case (Cons e es)
        show ?thesis
        proof (cases "e = 0x75")
          case False
          with "2.prems" quote True Cons obtain d s'
            where d: "unescape e = Some d" and r: "string_chars es = Some (s', rest)"
            by (auto simp: cons_fst_def split: option.splits)
          from "2.IH"(2) [OF quote True Cons False d r] show ?thesis
            using Cons by simp
        next
          case u: True
          with "2.prems" quote True Cons obtain h1 h2 h3 h4 r u' s'
            where es: "es = h1 # h2 # h3 # h4 # r"
              and h: "hex4 h1 h2 h3 h4 = Some u'"
              and r: "string_chars r = Some (s', rest)"
            by (auto simp: cons_fst_def split: list.splits option.splits)
          from "2.IH"(1) [OF quote True Cons u es refl refl refl h r] show ?thesis
            using Cons es by simp
        qed
      qed
    qed
  qed
qed

lemma digits_shorter: "length (snd (digits cs)) \<le> length cs"
  by (simp add: digits_def length_dropWhile_le)

lemma int_part_shorter: "int_part cs = Some (i, r) \<Longrightarrow> length r < length cs"
  using digits_shorter
  by (auto simp: int_part_def less_Suc_eq_le split: list.splits if_splits)

lemma frac_part_shorter: "length (snd (frac_part cs)) \<le> length cs"
  using digits_shorter
  by (auto simp: frac_part_def le_Suc_eq split: list.splits)

lemma exp_part_shorter: "length (snd (exp_part cs)) \<le> length cs"
  using digits_shorter
  by (auto simp: exp_part_def le_Suc_eq split: list.splits)

lemma number_shorter:
  assumes "number cs = Some (lit, rest)"
  shows "length rest < length cs"
proof -
  obtain sign r0 where s: "(case cs of c # r \<Rightarrow> if c = 0x2D then ([c], r) else ([], cs)
                        | [] \<Rightarrow> ([], cs)) = (sign, r0)"
    by fastforce
  then have r0: "length r0 \<le> length cs"
    by (auto split: list.splits if_splits)
  from assms s obtain i r1 where i: "int_part r0 = Some (i, r1)"
    and rest: "rest = snd (exp_part (snd (frac_part r1)))"
    by (auto simp: number_def Let_def split: option.splits prod.splits)
  have "length rest \<le> length r1"
    unfolding rest using exp_part_shorter frac_part_shorter le_trans by blast
  with int_part_shorter [OF i] r0 show ?thesis by simp
qed

lemma strip_prefix_shorter:
  "strip_prefix w cs = Some rest \<Longrightarrow> length rest \<le> length cs"
  by (induction w cs rule: strip_prefix.induct) (auto split: if_splits)

text \<open>
  The token sequence of a text, or \<open>None\<close> where no token starts. White space is
  tab, line feed, carriage return and space.
\<close>

function tokenize :: "jstring \<Rightarrow> token list option" where
  "tokenize [] = Some []"
| "tokenize (c # cs) =
     (if is_ws c then tokenize cs
      else if c = 0x7B then cons_tok TLBrace (tokenize cs)
      else if c = 0x7D then cons_tok TRBrace (tokenize cs)
      else if c = 0x5B then cons_tok TLBrack (tokenize cs)
      else if c = 0x5D then cons_tok TRBrack (tokenize cs)
      else if c = 0x3A then cons_tok TColon (tokenize cs)
      else if c = 0x2C then cons_tok TComma (tokenize cs)
      else if c = 0x22 then
        (case string_chars cs of
           None \<Rightarrow> None
         | Some (s, rest) \<Rightarrow> cons_tok (TStr s) (tokenize rest))
      else if c = 0x2D \<or> is_digit c then
        (case number (c # cs) of
           None \<Rightarrow> None
         | Some (lit, rest) \<Rightarrow> cons_tok (TNum lit) (tokenize rest))
      else if c = 0x74 then
        (case strip_prefix (js ''rue'') cs of
           None \<Rightarrow> None
         | Some rest \<Rightarrow> cons_tok TTrue (tokenize rest))
      else if c = 0x66 then
        (case strip_prefix (js ''alse'') cs of
           None \<Rightarrow> None
         | Some rest \<Rightarrow> cons_tok TFalse (tokenize rest))
      else if c = 0x6E then
        (case strip_prefix (js ''ull'') cs of
           None \<Rightarrow> None
         | Some rest \<Rightarrow> cons_tok TNull (tokenize rest))
      else None)"
  by pat_completeness auto
termination
proof (relation "measure length", goal_cases)
  case 1
  show ?case by simp
next
  case (9 c cs x2 s rest)
  then show ?case using string_chars_shorter [of cs s rest] by simp
next
  case (10 c cs x2 lit rest)
  then show ?case using number_shorter [of "c # cs" lit rest] by simp
next
  case (11 c cs rest)
  then show ?case using strip_prefix_shorter [of "js ''rue''" cs rest] by simp
next
  case (12 c cs rest)
  then show ?case using strip_prefix_shorter [of "js ''alse''" cs rest] by simp
next
  case (13 c cs rest)
  then show ?case using strip_prefix_shorter [of "js ''ull''" cs rest] by simp
qed simp_all

subsection \<open>\<open>JSON.parse\<close>: the parser\<close>

text \<open>
  Defining a property of an object under construction: a key met again keeps its place
  and takes the new value.
\<close>

fun obj_put :: "('k \<times> 'v) list \<Rightarrow> 'k \<Rightarrow> 'v \<Rightarrow> ('k \<times> 'v) list" where
  "obj_put [] k v = [(k, v)]"
| "obj_put (p # ps) k v = (if fst p = k then (k, v) # ps else p # obj_put ps k v)"

text \<open>
  The parser runs over the tokens with a stack of the containers that are open, the
  innermost first. A frame says where in its container the parser stands.
\<close>

datatype frame =
    ArrStart
  | ArrValue "jsval list"
  | ArrNext "jsval list"
  | ObjStart
  | ObjKey "(jstring \<times> jsval) list"
  | ObjColon "(jstring \<times> jsval) list" jstring
  | ObjValue "(jstring \<times> jsval) list" jstring
  | ObjNext "(jstring \<times> jsval) list"

datatype pstate = Parsing "frame list" | Done jsval

text \<open>Where a value may start: at the top, after \<open>[\<close>, after a comma of an array, after a colon.\<close>

fun expects_value :: "frame list \<Rightarrow> bool" where
  "expects_value [] = True"
| "expects_value (ArrStart # _) = True"
| "expects_value (ArrValue _ # _) = True"
| "expects_value (ObjValue _ _ # _) = True"
| "expects_value _ = False"

fun value_done :: "jsval \<Rightarrow> frame list \<Rightarrow> pstate option" where
  "value_done v [] = Some (Done v)"
| "value_done v (ArrStart # st) = Some (Parsing (ArrNext [v] # st))"
| "value_done v (ArrValue vs # st) = Some (Parsing (ArrNext (vs @ [v]) # st))"
| "value_done v (ObjValue kvs k # st) = Some (Parsing (ObjNext (obj_put kvs k v) # st))"
| "value_done v _ = None"

fun step :: "token \<Rightarrow> pstate \<Rightarrow> pstate option" where
  "step t (Done v) = None"
| "step (TStr s) (Parsing (ObjStart # st)) = Some (Parsing (ObjColon [] s # st))"
| "step (TStr s) (Parsing (ObjKey kvs # st)) = Some (Parsing (ObjColon kvs s # st))"
| "step (TStr s) (Parsing st) = value_done (JStr s) st"
| "step (TNum n) (Parsing st) = value_done (JNum n) st"
| "step TTrue (Parsing st) = value_done (JBool True) st"
| "step TFalse (Parsing st) = value_done (JBool False) st"
| "step TNull (Parsing st) = value_done JNull st"
| "step TLBrace (Parsing st) = (if expects_value st then Some (Parsing (ObjStart # st)) else None)"
| "step TLBrack (Parsing st) = (if expects_value st then Some (Parsing (ArrStart # st)) else None)"
| "step TRBrace (Parsing (ObjStart # st)) = value_done (JObj []) st"
| "step TRBrace (Parsing (ObjNext kvs # st)) = value_done (JObj kvs) st"
| "step TRBrace (Parsing _) = None"
| "step TRBrack (Parsing (ArrStart # st)) = value_done (JArr []) st"
| "step TRBrack (Parsing (ArrNext vs # st)) = value_done (JArr vs) st"
| "step TRBrack (Parsing _) = None"
| "step TColon (Parsing (ObjColon kvs k # st)) = Some (Parsing (ObjValue kvs k # st))"
| "step TColon (Parsing _) = None"
| "step TComma (Parsing (ArrNext vs # st)) = Some (Parsing (ArrValue vs # st))"
| "step TComma (Parsing (ObjNext kvs # st)) = Some (Parsing (ObjKey kvs # st))"
| "step TComma (Parsing _) = None"

fun run :: "token list \<Rightarrow> pstate \<Rightarrow> pstate option" where
  "run [] s = Some s"
| "run (t # ts) s = (case step t s of None \<Rightarrow> None | Some s' \<Rightarrow> run ts s')"

text \<open>
  \<open>JSON.parse\<close> of a string: the value of the text when the whole text is one JSON value,
  a \<open>SyntaxError\<close> otherwise.
\<close>

definition JSON_parse :: "jstring \<Rightarrow> jsval result" where
  "JSON_parse text =
     (case tokenize text of
        None \<Rightarrow> Inl SyntaxError
      | Some ts \<Rightarrow>
          (case run ts (Parsing []) of
             Some (Done v) \<Rightarrow> Inr v
           | _ \<Rightarrow> Inl SyntaxError))"

subsection \<open>The tokens and the value of a stringified header object\<close>

fun header_tokens :: "(jstring \<times> jstring) list \<Rightarrow> token list" where
  "header_tokens [] = []"
| "header_tokens [(k, v)] = [TStr k, TColon, TStr v]"
| "header_tokens ((k, v) # p # ps) = [TStr k, TColon, TStr v, TComma] @ header_tokens (p # ps)"

text \<open>The object that defining the properties one after the other gives.\<close>

definition header_object :: "(jstring \<times> jstring) list \<Rightarrow> (jstring \<times> jsval) list" where
  "header_object hs = fold (\<lambda>(k, v) kvs. obj_put kvs k (JStr v)) hs []"

section \<open>The store and the tracing backend\<close>

text \<open>
  Objects that the code mutates live in a store: an address holds the properties of its
  object, and \<open>fresh\<close> is the next address that \<open>{}\<close> takes. The world is the store
  together with the state of the tracing backend. An asynchronous function is run to the
  point where its promise settles: it takes the world and gives the settled result
  (\<open>Inl\<close> a rejection) and the world after it.
\<close>

record 'b world =
  store :: "addr \<Rightarrow> jstring \<rightharpoonup> jsval"
  fresh :: addr
  backend :: 'b

type_synonym ('b, 'a) action = "'b world \<Rightarrow> 'a result \<times> 'b world"

definition new_object :: "'b world \<Rightarrow> addr \<times> 'b world" where
  "new_object w =
     (fresh w, w\<lparr>store := (store w)(fresh w := Map.empty), fresh := Suc (fresh w)\<rparr>)"

text \<open>\<open>context?.p\<close>: a property that is not there, and any property of a primitive, is \<open>undefined\<close>.\<close>

definition get_prop :: "'b world \<Rightarrow> ctxval \<Rightarrow> jstring \<Rightarrow> jsval" where
  "get_prop w c p =
     (case c of
        CRef a \<Rightarrow> (case store w a p of None \<Rightarrow> JUndefined | Some v \<Rightarrow> v)
      | _ \<Rightarrow> JUndefined)"

definition set_prop :: "addr \<Rightarrow> jstring \<Rightarrow> jsval \<Rightarrow> 'b world \<Rightarrow> 'b world" where
  "set_prop a p v w = w\<lparr>store := (store w)(a := (store w a)(p \<mapsto> v))\<rparr>"

definition delete_prop :: "addr \<Rightarrow> jstring \<Rightarrow> 'b world \<Rightarrow> 'b world" where
  "delete_prop a p w = w\<lparr>store := (store w)(a := (store w a)(p := None))\<rparr>"

text \<open>
  The \<open>newrelic\<close> object that \<open>getTraceProvider\<close> is given (and that the second file
  imports): the four functions the code calls on it, and the two methods it calls on the
  handle of a transaction. The agent's functions do not throw; the two that wrap a piece of
  work return what the work returns.
\<close>

record 'b newrelic =
  startBackgroundTransaction :: "jstring \<Rightarrow> ('b, unit) action \<Rightarrow> ('b, unit) action"
  getTransaction :: "'b world \<Rightarrow> txn"
  startSegment :: "jstring \<Rightarrow> bool \<Rightarrow> ('b, jsval) action \<Rightarrow> ('b, jsval) action"
  noticeError :: "jserr \<Rightarrow> 'b world \<Rightarrow> 'b world"
  acceptDistributedTraceHeaders :: "txn \<Rightarrow> jstring \<Rightarrow> jsval \<Rightarrow> 'b world \<Rightarrow> 'b world"
  insertDistributedTraceHeaders ::
    "txn \<Rightarrow> (jstring \<times> jstring) list \<Rightarrow> 'b world \<Rightarrow> (jstring \<times> jstring) list \<times> 'b world"

section \<open>The trace provider\<close>

text \<open>An awaited result that is not used: a rejection passes, a value is dropped.\<close>

definition discard :: "'a result \<Rightarrow> unit result" where
  "discard r = (case r of Inl e \<Rightarrow> Inl e | Inr _ \<Rightarrow> Inr ())"

text \<open>\<open>traceContext || {}\<close>: a new object for a falsy argument.\<close>

definition or_new_object :: "ctxval \<Rightarrow> 'b world \<Rightarrow> ctxval \<times> 'b world" where
  "or_new_object traceContext w =
     (if truthy_ctx traceContext then (traceContext, w)
      else (let (a, w') = new_object w in (CRef a, w')))"

text \<open>
  What the function given to \<open>startBackgroundTransaction\<close> does before it calls the
  callback: it stores the handle of the transaction in the context and, where the context
  has truthy \<open>distributedTraceHeaders\<close>, accepts them and deletes the property.
\<close>

definition prologue :: "'b newrelic \<Rightarrow> addr \<Rightarrow> 'b world \<Rightarrow> 'b world" where
  "prologue nr a w1 =
     (let t = getTransaction nr w1;
          w2 = set_prop a (js ''transaction'') (JTxn t) w1;
          h = get_prop w2 (CRef a) (js ''distributedTraceHeaders'')
      in if truthy h then
           delete_prop a (js ''distributedTraceHeaders'')
             (acceptDistributedTraceHeaders nr t (js ''Queue'') h w2)
         else w2)"

text \<open>
  \<open>wrapHandler\<close>. The module is strict code, so setting \<open>txName\<close> on a primitive is a
  \<open>TypeError\<close>.
\<close>

definition wrapHandler ::
  "'b newrelic \<Rightarrow> jstring \<Rightarrow> ctxval \<Rightarrow> (ctxval \<Rightarrow> ('b, jsval) action) \<Rightarrow> ('b, unit) action" where
  "wrapHandler nr txName traceContext callback w =
     (let (context, w0) = or_new_object traceContext w
      in case context of
           CRef a \<Rightarrow>
             startBackgroundTransaction nr txName
               (\<lambda>w1. let (r, w2) = callback context (prologue nr a w1) in (discard r, w2))
               (set_prop a (js ''txName'') (JStr txName) w0)
         | _ \<Rightarrow> (Inl TypeError, w0))"

text \<open>
  \<open>wrapHandlerSegment\<close>. An absent \<open>segmentName\<close> is \<open>None\<close>; the template literal
  converts whatever \<open>traceContext?.txName\<close> is to a string.
\<close>

definition segment_name :: "'b world \<Rightarrow> jstring option \<Rightarrow> ctxval \<Rightarrow> jstring" where
  "segment_name w segmentName traceContext =
     (case segmentName of
        Some s \<Rightarrow>
          if s \<noteq> [] then s
          else to_string (get_prop w traceContext (js ''txName'')) @ js ''-segment''
      | None \<Rightarrow> to_string (get_prop w traceContext (js ''txName'')) @ js ''-segment'')"

definition wrapHandlerSegment ::
  "'b newrelic \<Rightarrow> jstring option \<Rightarrow> ctxval \<Rightarrow> ('b, jsval) action \<Rightarrow> ('b, unit) action" where
  "wrapHandlerSegment nr segmentName traceContext callback w =
     (let (r, w') = startSegment nr (segment_name w segmentName traceContext) True callback w
      in (discard r, w'))"

definition onError :: "'b newrelic \<Rightarrow> jserr \<Rightarrow> ctxval \<Rightarrow> ('b, unit) action" where
  "onError nr err _ w = (Inr (), noticeError nr err w)"

text \<open>
  \<open>serializeTraceMetadata\<close>. A \<open>transaction\<close> property that is truthy and not a handle has
  no \<open>insertDistributedTraceHeaders\<close> method: calling it is a \<open>TypeError\<close>.
\<close>

definition serializeTraceMetadata :: "'b newrelic \<Rightarrow> ctxval \<Rightarrow> ('b, jstring) action" where
  "serializeTraceMetadata nr traceContext w =
     (let transaction = get_prop w traceContext (js ''transaction'') in
      if \<not> truthy transaction then
        (Inl (Error (js ''Property `transaction` missing from context'')), w)
      else
        (case transaction of
           JTxn t \<Rightarrow>
             (let (traceHeaders, w') = insertDistributedTraceHeaders nr t [] w
              in (Inr (JSON_stringify traceHeaders), w'))
         | _ \<Rightarrow> (Inl TypeError, w)))"

text \<open>
  \<open>deserializeTraceMetadata\<close> of \<open>src/index.ts\<close>, on the string its signature declares:
  an error of \<open>JSON.parse\<close> rejects the promise.
\<close>

definition deserializeTraceMetadata :: "jstring \<Rightarrow> ('b, ctxval) action" where
  "deserializeTraceMetadata traceMetadata w =
     (case JSON_parse traceMetadata of
        Inl e \<Rightarrow> (Inl e, w)
      | Inr v \<Rightarrow>
          (let (a, w') = new_object w
           in (Inr (CRef a), set_prop a (js ''distributedTraceHeaders'') v w')))"

fun typeof :: "jsval \<Rightarrow> jstring" where
  "typeof JUndefined = js ''undefined''"
| "typeof JNull = js ''object''"
| "typeof (JBool _) = js ''boolean''"
| "typeof (JNum _) = js ''number''"
| "typeof (JStr _) = js ''string''"
| "typeof (JArr _) = js ''object''"
| "typeof (JObj _) = js ''object''"
| "typeof (JTxn _) = js ''object''"

text \<open>
  \<open>deserializeTraceMetadata\<close> of the second file (\<open>traceProvider\<close>, on the imported
  agent), on any value: what is not a string, and what \<open>JSON.parse\<close> throws on, gives
  \<open>{}\<close>.
\<close>

definition deserializeTraceMetadata_part_000 :: "jsval \<Rightarrow> ('b, ctxval) action" where
  "deserializeTraceMetadata_part_000 traceMetadata w =
     (let empty_context = (let (a, w') = new_object w in (Inr (CRef a), w')) in
      if typeof traceMetadata \<noteq> js ''string'' then empty_context
      else
        (case traceMetadata of
           JStr s \<Rightarrow>
             (case JSON_parse s of
                Inl error \<Rightarrow> empty_context
              | Inr v \<Rightarrow>
                  (let (a, w') = new_object w
                   in (Inr (CRef a), set_prop a (js ''distributedTraceHeaders'') v w')))
         | _ \<Rightarrow> empty_context))"

text \<open>
  The provider object: its five members. \<open>getTraceProvider\<close> of \<open>src/index.ts\<close> gives
  \<open>undefined\<close> for a falsy argument (\<open>None\<close>: the declared type has no falsy value but
  \<open>undefined\<close> and \<open>null\<close>), and the members closed over the agent otherwise.
  \<open>traceProvider\<close> of the second file is the same object over the agent that the file
  imports, but for its \<open>deserializeTraceMetadata\<close>.
\<close>

record ('b, 't) TraceProvider =
  tp_wrapHandler :: "jstring \<Rightarrow> ctxval \<Rightarrow> (ctxval \<Rightarrow> ('b, jsval) action) \<Rightarrow> ('b, unit) action"
  tp_wrapHandlerSegment :: "jstring option \<Rightarrow> ctxval \<Rightarrow> ('b, jsval) action \<Rightarrow> ('b, unit) action"
  tp_onError :: "jserr \<Rightarrow> ctxval \<Rightarrow> ('b, unit) action"
  tp_serializeTraceMetadata :: "ctxval \<Rightarrow> ('b, jstring) action"
  tp_deserializeTraceMetadata :: "'t \<Rightarrow> ('b, ctxval) action"

definition getTraceProvider :: "'b newrelic option \<Rightarrow> ('b, jstring) TraceProvider option" where
  "getTraceProvider newrelic =
     (case newrelic of
        None \<Rightarrow> None
      | Some nr \<Rightarrow>
          Some \<lparr>tp_wrapHandler = wrapHandler nr,
                tp_wrapHandlerSegment = wrapHandlerSegment nr,
                tp_onError = onError nr,
                tp_serializeTraceMetadata = serializeTraceMetadata nr,
                tp_deserializeTraceMetadata = deserializeTraceMetadata\<rparr>)"

definition traceProvider :: "'b newrelic \<Rightarrow> ('b, jsval) TraceProvider" where
  "traceProvider nr =
     \<lparr>tp_wrapHandler = wrapHandler nr,
      tp_wrapHandlerSegment = wrapHandlerSegment nr,
      tp_onError = onError nr,
      tp_serializeTraceMetadata = serializeTraceMetadata nr,
      tp_deserializeTraceMetadata = deserializeTraceMetadata_part_000\<rparr>"

section \<open>A reference agent\<close>

text \<open>
  Modelled from the spec: the tracing backend (the agent behind the \<open>newrelic\<close> object,
  an external package). Sections 3 and 6 of the specification give its contract: a
  background transaction is opened, the work runs, and the transaction is closed when the
  work settles, fulfilled or rejected; the active transaction is ambient state of the
  agent; accepted linkage, segments and reported errors are recorded against it. The
  agent keeps a log of what it was asked to do; \<open>outbound\<close> is the linkage it hands out
  for a transaction.
\<close>

datatype event =
    TxStart txn jstring
  | TxEnd txn
  | Accepted txn jstring jsval
  | Inserted txn
  | SegStart jstring bool
  | SegEnd jstring
  | Noticed txn jserr

record nrstate =
  events :: "event list"
  active :: "txn list"
  started :: nat
  outbound :: "txn \<Rightarrow> (jstring \<times> jstring) list"

definition record_event :: "event \<Rightarrow> nrstate world \<Rightarrow> nrstate world" where
  "record_event e w = w\<lparr>backend := (backend w)\<lparr>events := events (backend w) @ [e]\<rparr>\<rparr>"

definition current :: "nrstate world \<Rightarrow> txn" where
  "current w = (case active (backend w) of [] \<Rightarrow> TxnStub | t # _ \<Rightarrow> t)"

definition tx_begin :: "jstring \<Rightarrow> nrstate world \<Rightarrow> nrstate world" where
  "tx_begin name w =
     (let b = backend w; t = Txn (started b)
      in w\<lparr>backend := b\<lparr>events := events b @ [TxStart t name],
                          active := t # active b,
                          started := Suc (started b)\<rparr>\<rparr>)"

definition tx_end :: "txn \<Rightarrow> nrstate world \<Rightarrow> nrstate world" where
  "tx_end t w =
     (let b = backend w
      in w\<lparr>backend := b\<lparr>events := events b @ [TxEnd t], active := remove1 t (active b)\<rparr>\<rparr>)"

text \<open>
  Modelled from the spec: the six primitives of the tracing backend (section 6).
  \<open>startBackgroundTransaction\<close> opens a transaction, runs the work in it and closes it
  when the work has settled, giving back what the work gave; the handle of the stub takes
  no linkage and hands none out.
\<close>

definition agent :: "nrstate newrelic" where
  "agent =
     \<lparr>startBackgroundTransaction =
        (\<lambda>name work w.
           let (r, w') = work (tx_begin name w)
           in (r, tx_end (Txn (started (backend w))) w')),
      getTransaction = current,
      startSegment =
        (\<lambda>name record work w.
           let (r, w') = work (record_event (SegStart name record) w)
           in (r, record_event (SegEnd name) w')),
      noticeError = (\<lambda>err w. record_event (Noticed (current w) err) w),
      acceptDistributedTraceHeaders =
        (\<lambda>t category headers w.
           if t = TxnStub then w else record_event (Accepted t category headers) w),
      insertDistributedTraceHeaders =
        (\<lambda>t headers w.
           if t = TxnStub then (headers, w)
           else (fold (\<lambda>(k, v) hs. obj_put hs k v) (outbound (backend w) t) headers,
                 record_event (Inserted t) w))\<rparr>"

text \<open>
  The world in which the callback of \<open>wrapHandler\<close> starts on the reference agent, for a
  context that is the object at \<open>a\<close>.
\<close>

definition callback_world :: "jstring \<Rightarrow> addr \<Rightarrow> nrstate world \<Rightarrow> nrstate world" where
  "callback_world name a w =
     prologue agent a (tx_begin name (set_prop a (js ''txName'') (JStr name) w))"

text \<open>An empty store and an agent that has not done anything yet, for examples.\<close>

definition world0 :: "nrstate world" where
  "world0 =
     \<lparr>store = (\<lambda>_. Map.empty), fresh = 0,
      backend = \<lparr>events = [], active = [], started = 0, outbound = (\<lambda>_. [])\<rparr>\<rparr>"

text \<open>Outbound linkage of two headers, for examples.\<close>

definition headers0 :: "(jstring \<times> jstring) list" where
  "headers0 =
     [(js ''traceparent'', js ''00-0af7651916cd43dd-b7ad6b7169203331-01''),
      (js ''tracestate'', js ''33@nr=0-0-33-2827902-b7ad6b7169203331'')]"

text \<open>A context inside a transaction whose outbound linkage is \<open>headers0\<close>.\<close>

definition serializing_world :: "nrstate world" where
  "serializing_world =
     \<lparr>store = (\<lambda>_. Map.empty)(0 := [js ''transaction'' \<mapsto> JTxn (Txn 0)]), fresh = 1,
      backend = \<lparr>events = [TxStart (Txn 0) (js ''job'')], active = [Txn 0], started = 1,
                  outbound = (\<lambda>_. headers0)\<rparr>\<rparr>"

text \<open>A context that carries inbound linkage, and one that has a name.\<close>

definition linkage :: "(jstring \<times> jsval) list" where
  "linkage = [(js ''traceparent'', JStr (js ''00-0af7651916cd43dd-b7ad6b7169203331-01''))]"

definition linked_world :: "nrstate world" where
  "linked_world =
     world0\<lparr>store := (store world0)(0 := [js ''distributedTraceHeaders'' \<mapsto> JObj linkage]),
            fresh := 1\<rparr>"

definition named_world :: "nrstate world" where
  "named_world =
     world0\<lparr>store := (store world0)(0 := [js ''txName'' \<mapsto> JStr (js ''Foo'')]), fresh := 1\<rparr>"

text \<open>
  Callbacks: one that does nothing, one that throws, and a probe that notes in its
  context whether the agent has accepted the linkage and the context has lost it.
\<close>

definition quiet :: "ctxval \<Rightarrow> (nrstate, jsval) action" where
  "quiet c w = (Inr JUndefined, w)"

definition failing :: "jserr \<Rightarrow> ctxval \<Rightarrow> (nrstate, jsval) action" where
  "failing E c w = (Inl E, w)"

definition probe :: "ctxval \<Rightarrow> (nrstate, jsval) action" where
  "probe c w =
     (case c of
        CRef a \<Rightarrow>
          (Inr JUndefined,
           set_prop a (js ''probe'')
             (JBool (Accepted (current w) (js ''Queue'') (JObj linkage) \<in> set (events (backend w))
                     \<and> store w a (js ''distributedTraceHeaders'') = None)) w)
      | _ \<Rightarrow> (Inr JUndefined, w))"

definition work0 :: "(nrstate, jsval) action" where
  "work0 w = (Inr JUndefined, w)"

section \<open>Elementary facts\<close>

lemma discard_simps [simp]:
  "discard (Inl e) = Inl e"
  "discard (Inr v) = Inr ()"
  by (simp_all add: discard_def)

lemma js_neq [simp]:
  "js ''txName'' \<noteq> js ''transaction''"
  "js ''txName'' \<noteq> js ''distributedTraceHeaders''"
  "js ''transaction'' \<noteq> js ''distributedTraceHeaders''"
  "js ''transaction'' \<noteq> js ''txName''"
  "js ''distributedTraceHeaders'' \<noteq> js ''txName''"
  "js ''distributedTraceHeaders'' \<noteq> js ''transaction''"
  by (simp_all add: js_def)

lemma or_new_object_ref [simp]: "or_new_object (CRef a) w = (CRef a, w)"
  by (simp add: or_new_object_def)

lemma or_new_object_absent:
  "\<not> truthy_ctx tc \<Longrightarrow> or_new_object tc w = (CRef (fresh w), snd (new_object w))"
  by (simp add: or_new_object_def new_object_def)

text \<open>
  Whatever the backend is, \<open>wrapHandler\<close> hands it one piece of work, and that work calls
  the callback on the context only after the prologue; where the context carries an
  object as linkage, the prologue has passed it to the handle under \<open>Queue\<close> and then
  deleted the property.
\<close>

lemma wrapHandler_work:
  "wrapHandler nr name (CRef a) cb w =
     startBackgroundTransaction nr name
       (\<lambda>w1. let (r, w2) = cb (CRef a) (prologue nr a w1) in (discard r, w2))
       (set_prop a (js ''txName'') (JStr name) w)"
  by (simp add: wrapHandler_def)

lemma prologue_linked:
  assumes "store w1 a (js ''distributedTraceHeaders'') = Some (JObj h)"
  shows "prologue nr a w1 =
           delete_prop a (js ''distributedTraceHeaders'')
             (acceptDistributedTraceHeaders nr (getTransaction nr w1) (js ''Queue'') (JObj h)
                (set_prop a (js ''transaction'') (JTxn (getTransaction nr w1)) w1))"
    and "store (prologue nr a w1) a (js ''distributedTraceHeaders'') = None"
  using assms
  by (simp_all add: prologue_def get_prop_def set_prop_def delete_prop_def Let_def)

section \<open>Serialising without a transaction\<close>

text \<open>
  C2. A context that has no \<open>transaction\<close> property (a primitive such as \<open>undefined\<close>, or
  an object without the property, a fresh one among them) makes
  \<open>serializeTraceMetadata\<close> fail with the error that names the missing property; the
  world is as it was: no handle is made and the agent is not called.
\<close>

theorem serialize_missing_transaction:
  assumes "\<And>a. traceContext = CRef a \<Longrightarrow> store w a (js ''transaction'') = None"
  shows "serializeTraceMetadata nr traceContext w =
           (Inl (Error (js ''Property `transaction` missing from context'')), w)"
proof -
  from assms have "get_prop w traceContext (js ''transaction'') = JUndefined"
    by (cases traceContext) (simp_all add: get_prop_def)
  then show ?thesis
    by (simp add: serializeTraceMetadata_def)
qed

theorem serialize_missing_transaction_witness:
  "serializeTraceMetadata agent CUndefined world0 =
     (Inl (Error (js ''Property `transaction` missing from context'')), world0)
   \<and> store (snd (new_object world0)) 0 (js ''transaction'') = None
   \<and> serializeTraceMetadata agent (CRef 0) (snd (new_object world0)) =
     (Inl (Error (js ''Property `transaction` missing from context'')), snd (new_object world0))"
proof -
  have fresh: "store (snd (new_object world0)) 0 (js ''transaction'') = None"
    by (simp add: new_object_def world0_def)
  show ?thesis
    using serialize_missing_transaction [of CUndefined world0 agent]
      serialize_missing_transaction [of "CRef 0" "snd (new_object world0)" agent] fresh
    by simp
qed

section \<open>The reference agent under \<open>wrapHandler\<close>\<close>

lemma agent_sel [simp]:
  "startBackgroundTransaction agent =
     (\<lambda>name work w. let (r, w') = work (tx_begin name w)
                     in (r, tx_end (Txn (started (backend w))) w'))"
  "getTransaction agent = current"
  "startSegment agent =
     (\<lambda>name record work w. let (r, w') = work (record_event (SegStart name record) w)
                            in (r, record_event (SegEnd name) w'))"
  "noticeError agent = (\<lambda>err w. record_event (Noticed (current w) err) w)"
  "acceptDistributedTraceHeaders agent =
     (\<lambda>t category headers w.
        if t = TxnStub then w else record_event (Accepted t category headers) w)"
  by (simp_all add: agent_def)

lemma wrapHandler_agent:
  "wrapHandler agent name (CRef a) cb w =
     (let (r, w2) = cb (CRef a) (callback_world name a w)
      in (discard r, tx_end (Txn (started (backend w))) w2))"
  by (simp add: wrapHandler_def callback_world_def set_prop_def split: prod.splits)

lemma callback_world_linked:
  assumes "store w a (js ''distributedTraceHeaders'') = Some (JObj h)"
  shows "callback_world name a w =
           tx_begin name w
             \<lparr>store := (store w)(a := (store w a)
                 (js ''txName'' \<mapsto> JStr name,
                  js ''transaction'' \<mapsto> JTxn (Txn (started (backend w))),
                  js ''distributedTraceHeaders'' := None)),
              backend := backend (tx_begin name w)
                 \<lparr>events := events (backend w) @
                    [TxStart (Txn (started (backend w))) name,
                     Accepted (Txn (started (backend w))) (js ''Queue'') (JObj h)]\<rparr>\<rparr>"
  using assms
  by (simp add: callback_world_def prologue_def tx_begin_def set_prop_def delete_prop_def
      get_prop_def current_def record_event_def Let_def)

lemma callback_world_unlinked:
  assumes "\<not> truthy (get_prop w (CRef a) (js ''distributedTraceHeaders''))"
  shows "callback_world name a w =
           tx_begin name w
             \<lparr>store := (store w)(a := (store w a)
                 (js ''txName'' \<mapsto> JStr name,
                  js ''transaction'' \<mapsto> JTxn (Txn (started (backend w)))))\<rparr>"
  using assms
  by (simp add: callback_world_def prologue_def tx_begin_def set_prop_def delete_prop_def
      get_prop_def current_def record_event_def Let_def)

lemma tx_end_simps [simp]:
  "store (tx_end t w) = store w"
  "fresh (tx_end t w) = fresh w"
  "events (backend (tx_end t w)) = events (backend w) @ [TxEnd t]"
  "active (backend (tx_end t w)) = remove1 t (active (backend w))"
  "started (backend (tx_end t w)) = started (backend w)"
  by (simp_all add: tx_end_def Let_def)

lemma tx_begin_simps [simp]:
  "store (tx_begin n w) = store w"
  "fresh (tx_begin n w) = fresh w"
  "events (backend (tx_begin n w)) = events (backend w) @ [TxStart (Txn (started (backend w))) n]"
  "active (backend (tx_begin n w)) = Txn (started (backend w)) # active (backend w)"
  "started (backend (tx_begin n w)) = Suc (started (backend w))"
  by (simp_all add: tx_begin_def Let_def)

section \<open>Linkage is accepted before the callback runs\<close>

text \<open>
  C6. For a context that carries linkage \<open>h\<close>, there is one world \<open>w1\<close> in which
  \<open>wrapHandler\<close> runs its callback, whatever the callback is; in \<open>w1\<close> the agent has
  already recorded the acceptance of \<open>h\<close> for the new transaction under the category
  \<open>Queue\<close> (it is the last thing the agent did), the context has lost the property and
  holds the handle of the transaction, which is the active one. So a probe, a segment or a
  serialisation inside the callback finds the linkage accepted.
\<close>

theorem linkage_accepted_before_callback:
  assumes "store w a (js ''distributedTraceHeaders'') = Some (JObj h)"
  shows "\<exists>w1. events (backend w1) =
                 events (backend w) @
                   [TxStart (Txn (started (backend w))) name,
                    Accepted (Txn (started (backend w))) (js ''Queue'') (JObj h)]
             \<and> store w1 a (js ''distributedTraceHeaders'') = None
             \<and> store w1 a (js ''transaction'') = Some (JTxn (Txn (started (backend w))))
             \<and> current w1 = Txn (started (backend w))
             \<and> (\<forall>cb. wrapHandler agent name (CRef a) cb w =
                   (let (r, w2) = cb (CRef a) w1
                    in (discard r, tx_end (Txn (started (backend w))) w2)))"
proof (intro exI conjI)
  let ?w1 = "callback_world name a w"
  show "\<forall>cb. wrapHandler agent name (CRef a) cb w =
          (let (r, w2) = cb (CRef a) ?w1 in (discard r, tx_end (Txn (started (backend w))) w2))"
    by (simp add: wrapHandler_agent)
  show "events (backend ?w1) = events (backend w) @
          [TxStart (Txn (started (backend w))) name,
           Accepted (Txn (started (backend w))) (js ''Queue'') (JObj h)]"
    by (simp add: callback_world_linked [OF assms])
  show "store ?w1 a (js ''distributedTraceHeaders'') = None"
    by (simp add: callback_world_linked [OF assms])
  show "store ?w1 a (js ''transaction'') = Some (JTxn (Txn (started (backend w))))"
    by (simp add: callback_world_linked [OF assms])
  show "current ?w1 = Txn (started (backend w))"
    by (simp add: callback_world_linked [OF assms] current_def)
qed

theorem linkage_accepted_before_callback_witness:
  "store linked_world 0 (js ''distributedTraceHeaders'') = Some (JObj linkage)
   \<and> store (snd (wrapHandler agent (js ''job'') (CRef 0) probe linked_world)) 0 (js ''probe'')
       = Some (JBool True)"
proof -
  have h: "store linked_world 0 (js ''distributedTraceHeaders'') = Some (JObj linkage)"
    by (simp add: linked_world_def world0_def)
  have s: "started (backend linked_world) = 0" "events (backend linked_world) = []"
    by (simp_all add: linked_world_def world0_def)
  from linkage_accepted_before_callback [OF h, of "js ''job''"] obtain w1 where
    ev: "events (backend w1) =
           [TxStart (Txn 0) (js ''job''), Accepted (Txn 0) (js ''Queue'') (JObj linkage)]"
    and gone: "store w1 0 (js ''distributedTraceHeaders'') = None"
    and cur: "current w1 = Txn 0"
    and run: "\<And>cb. wrapHandler agent (js ''job'') (CRef 0) cb linked_world =
                (let (r, w2) = cb (CRef 0) w1 in (discard r, tx_end (Txn 0) w2))"
    unfolding s by auto
  have "store (snd (wrapHandler agent (js ''job'') (CRef 0) probe linked_world)) 0 (js ''probe'')
          = Some (JBool True)"
    by (simp add: run probe_def ev gone cur set_prop_def)
  with h show ?thesis by simp
qed


section \<open>Linkage is consumed once\<close>

text \<open>
  C4. For a context that carries linkage \<open>h\<close> and a callback that does not itself put a
  \<open>distributedTraceHeaders\<close> property back, the context has no such property when
  \<open>wrapHandler\<close> is done. Around the callback the agent is asked to open the transaction,
  to accept \<open>h\<close> (once) and to close the transaction, and nothing else; and a later
  \<open>wrapHandler\<close> on the same context object starts its callback after opening its
  transaction only: nothing is accepted again.
\<close>

theorem linkage_consumed_once:
  assumes linked: "store w a (js ''distributedTraceHeaders'') = Some (JObj h)"
      and frame: "\<And>w'. store w' a (js ''distributedTraceHeaders'') = None \<Longrightarrow>
                    store (snd (cb (CRef a) w')) a (js ''distributedTraceHeaders'') = None"
  shows "store (snd (wrapHandler agent name (CRef a) cb w)) a (js ''distributedTraceHeaders'') = None
       \<and> (\<exists>w1. events (backend w1) =
                   events (backend w) @
                     [TxStart (Txn (started (backend w))) name,
                      Accepted (Txn (started (backend w))) (js ''Queue'') (JObj h)]
               \<and> events (backend (snd (wrapHandler agent name (CRef a) cb w))) =
                   events (backend (snd (cb (CRef a) w1))) @ [TxEnd (Txn (started (backend w)))])
       \<and> (\<forall>name' cb'.
             let w' = snd (wrapHandler agent name (CRef a) cb w)
             in \<exists>w1'. events (backend w1') =
                         events (backend w') @ [TxStart (Txn (started (backend w'))) name']
                     \<and> wrapHandler agent name' (CRef a) cb' w' =
                         (let (r, w2) = cb' (CRef a) w1'
                          in (discard r, tx_end (Txn (started (backend w'))) w2)))"
proof -
  let ?w1 = "callback_world name a w"
  let ?w' = "snd (wrapHandler agent name (CRef a) cb w)"
  have gone: "store ?w1 a (js ''distributedTraceHeaders'') = None"
    by (simp add: callback_world_linked [OF linked])
  have final: "?w' = tx_end (Txn (started (backend w))) (snd (cb (CRef a) ?w1))"
    by (simp add: wrapHandler_agent split: prod.splits)
  have absent: "store ?w' a (js ''distributedTraceHeaders'') = None"
    using frame [OF gone] by (simp add: final)
  have once: "events (backend ?w1) =
                events (backend w) @
                  [TxStart (Txn (started (backend w))) name,
                   Accepted (Txn (started (backend w))) (js ''Queue'') (JObj h)]
            \<and> events (backend ?w') =
                events (backend (snd (cb (CRef a) ?w1))) @ [TxEnd (Txn (started (backend w)))]"
    by (simp add: callback_world_linked [OF linked] final)
  have falsy: "\<not> truthy (get_prop ?w' (CRef a) (js ''distributedTraceHeaders''))"
    using absent by (simp add: get_prop_def)
  have later: "events (backend (callback_world name' a ?w')) =
                 events (backend ?w') @ [TxStart (Txn (started (backend ?w'))) name']" for name'
    by (simp add: callback_world_unlinked [OF falsy])
  from absent once later show ?thesis
    unfolding Let_def by (blast intro: wrapHandler_agent [unfolded Let_def])
qed

theorem linkage_consumed_once_witness:
  "store linked_world 0 (js ''distributedTraceHeaders'') = Some (JObj linkage)
   \<and> store (snd (wrapHandler agent (js ''job'') (CRef 0) quiet linked_world)) 0
         (js ''distributedTraceHeaders'') = None
   \<and> events (backend (snd (wrapHandler agent (js ''job'') (CRef 0) quiet linked_world))) =
       [TxStart (Txn 0) (js ''job''), Accepted (Txn 0) (js ''Queue'') (JObj linkage),
        TxEnd (Txn 0)]"
proof -
  have h: "store linked_world 0 (js ''distributedTraceHeaders'') = Some (JObj linkage)"
    by (simp add: linked_world_def world0_def)
  have q: "\<And>w'. store w' 0 (js ''distributedTraceHeaders'') = None \<Longrightarrow>
             store (snd (quiet (CRef 0) w')) 0 (js ''distributedTraceHeaders'') = None"
    by (simp add: quiet_def)
  have s: "started (backend linked_world) = 0" "events (backend linked_world) = []"
    by (simp_all add: linked_world_def world0_def)
  from linkage_consumed_once [of linked_world 0 linkage quiet "js ''job''", OF h q]
  show ?thesis
    using h unfolding s by (auto simp: quiet_def)
qed

text \<open>
  The limit of the above: a falsy value in the property (\<open>null\<close>, an empty string, zero,
  \<open>false\<close>; the token \<open>null\<close> deserialises to such a context) is not linkage. It is neither
  accepted nor deleted.
\<close>

lemma falsy_linkage_kept:
  assumes "\<not> truthy (get_prop w (CRef a) (js ''distributedTraceHeaders''))"
  shows "store (callback_world name a w) a (js ''distributedTraceHeaders'') =
           store w a (js ''distributedTraceHeaders'')
       \<and> events (backend (callback_world name a w)) =
           events (backend w) @ [TxStart (Txn (started (backend w))) name]"
  by (simp add: callback_world_unlinked [OF assms])

section \<open>Errors of the callback\<close>

text \<open>
  C5. Where the context is an object or is absent and the callback, run where
  \<open>wrapHandler\<close> runs it, raises \<open>E\<close> and leaves the world \<open>w2\<close>, \<open>wrapHandler\<close>
  rejects with the same \<open>E\<close>, and the last thing the agent did is to close the
  transaction: the close is added once to what the callback left, so the transaction is
  closed exactly once unless it was closed before the callback returned.
\<close>

theorem callback_error_propagates:
  assumes ctx: "or_new_object traceContext w = (CRef a, w0)"
      and raises: "cb (CRef a) (callback_world name a w0) = (Inl E, w2)"
  shows "wrapHandler agent name traceContext cb w = (Inl E, tx_end (Txn (started (backend w))) w2)
       \<and> events (backend (tx_end (Txn (started (backend w))) w2)) =
           events (backend w2) @ [TxEnd (Txn (started (backend w)))]
       \<and> (TxEnd (Txn (started (backend w))) \<notin> set (events (backend w2)) \<longrightarrow>
            count_list (events (backend (snd (wrapHandler agent name traceContext cb w))))
              (TxEnd (Txn (started (backend w)))) = 1)"
proof -
  have b: "backend w0 = backend w"
    using ctx by (auto simp: or_new_object_def new_object_def split: if_splits)
  have "wrapHandler agent name traceContext cb w = wrapHandler agent name (CRef a) cb w0"
    using ctx by (simp add: wrapHandler_def)
  then have run: "wrapHandler agent name traceContext cb w =
                    (Inl E, tx_end (Txn (started (backend w))) w2)"
    using raises by (simp add: wrapHandler_agent b)
  then show ?thesis
    by (simp add: count_list_0_iff)
qed

theorem callback_error_propagates_witness:
  "or_new_object CUndefined world0 = (CRef 0, snd (new_object world0))
   \<and> wrapHandler agent (js ''job'') CUndefined (failing (Error (js ''boom''))) world0 =
       (Inl (Error (js ''boom'')),
        tx_end (Txn 0) (callback_world (js ''job'') 0 (snd (new_object world0))))
   \<and> events (backend (snd (wrapHandler agent (js ''job'') CUndefined
        (failing (Error (js ''boom''))) world0))) =
       [TxStart (Txn 0) (js ''job''), TxEnd (Txn 0)]
   \<and> count_list (events (backend (snd (wrapHandler agent (js ''job'') CUndefined
        (failing (Error (js ''boom''))) world0)))) (TxEnd (Txn 0)) = 1"
proof -
  let ?w0 = "snd (new_object world0)"
  let ?w2 = "callback_world (js ''job'') 0 ?w0"
  have c: "or_new_object CUndefined world0 = (CRef 0, ?w0)"
    by (simp add: or_new_object_def new_object_def world0_def)
  have r: "failing (Error (js ''boom'')) (CRef 0) ?w2 = (Inl (Error (js ''boom'')), ?w2)"
    by (simp add: failing_def)
  have s: "started (backend world0) = 0"
    by (simp add: world0_def)
  have f: "\<not> truthy (get_prop ?w0 (CRef 0) (js ''distributedTraceHeaders''))"
    by (simp add: get_prop_def new_object_def world0_def)
  have e: "events (backend ?w2) = [TxStart (Txn 0) (js ''job'')]"
    by (simp add: callback_world_unlinked [OF f]) (simp add: new_object_def world0_def)
  from callback_error_propagates [where cb = "failing (Error (js ''boom''))", OF c r]
  show ?thesis
    using c unfolding s by (simp add: e)
qed


lemma callback_world_frame:
  "store (callback_world name a w) a (js ''txName'') = Some (JStr name)"
  "fresh (callback_world name a w) = fresh w"
  "a' \<noteq> a \<Longrightarrow> store (callback_world name a w) a' = store w a'"
  by (simp_all add: callback_world_def prologue_def tx_begin_def set_prop_def delete_prop_def
      get_prop_def current_def record_event_def Let_def)

section \<open>The context of \<open>wrapHandler\<close>\<close>

text \<open>
  C8. For an absent context (\<open>undefined\<close> or \<open>null\<close>) \<open>wrapHandler\<close> takes a new empty
  object and goes on with it: the call is fulfilled whenever the callback is. For a context
  that is an object, the callback gets the same reference; when it starts, the object
  holds \<open>txName\<close>, no object has been allocated and no other object has changed.
\<close>

theorem wrapHandler_context_in_place:
  "(traceContext = CUndefined \<or> traceContext = CNull \<longrightarrow>
      store (snd (new_object w)) (fresh w) = Map.empty
      \<and> wrapHandler agent name traceContext cb w =
          (let (r, w2) = cb (CRef (fresh w))
                           (callback_world name (fresh w) (snd (new_object w)))
           in (discard r, tx_end (Txn (started (backend w))) w2))
      \<and> (\<forall>v w2. cb (CRef (fresh w)) (callback_world name (fresh w) (snd (new_object w)))
                   = (Inr v, w2) \<longrightarrow>
                 fst (wrapHandler agent name traceContext cb w) = Inr ()))
   \<and> (traceContext = CRef a \<longrightarrow>
      wrapHandler agent name traceContext cb w =
        (let (r, w2) = cb (CRef a) (callback_world name a w)
         in (discard r, tx_end (Txn (started (backend w))) w2))
      \<and> store (callback_world name a w) a (js ''txName'') = Some (JStr name)
      \<and> fresh (callback_world name a w) = fresh w
      \<and> (\<forall>a'. a' \<noteq> a \<longrightarrow> store (callback_world name a w) a' = store w a'))"
proof (intro conjI impI)
  assume absent: "traceContext = CUndefined \<or> traceContext = CNull"
  then have falsy: "\<not> truthy_ctx traceContext" by auto
  have b: "backend (snd (new_object w)) = backend w"
    by (simp add: new_object_def)
  have "wrapHandler agent name traceContext cb w =
          wrapHandler agent name (CRef (fresh w)) cb (snd (new_object w))"
    by (simp add: wrapHandler_def or_new_object_absent [OF falsy])
  then show run: "wrapHandler agent name traceContext cb w =
          (let (r, w2) = cb (CRef (fresh w))
                           (callback_world name (fresh w) (snd (new_object w)))
           in (discard r, tx_end (Txn (started (backend w))) w2))"
    by (simp add: wrapHandler_agent b)
  show "store (snd (new_object w)) (fresh w) = Map.empty"
    by (simp add: new_object_def)
  show "\<forall>v w2. cb (CRef (fresh w)) (callback_world name (fresh w) (snd (new_object w)))
                 = (Inr v, w2) \<longrightarrow>
               fst (wrapHandler agent name traceContext cb w) = Inr ()"
    by (simp add: run)
next
  assume "traceContext = CRef a"
  then show "wrapHandler agent name traceContext cb w =
        (let (r, w2) = cb (CRef a) (callback_world name a w)
         in (discard r, tx_end (Txn (started (backend w))) w2))"
    by (simp add: wrapHandler_agent)
qed (simp_all add: callback_world_frame)

theorem wrapHandler_context_in_place_witness:
  "fst (wrapHandler agent (js ''job'') CUndefined quiet world0) = Inr ()
   \<and> store (snd (wrapHandler agent (js ''job'') CUndefined quiet world0)) 0 (js ''txName'')
       = Some (JStr (js ''job''))
   \<and> fst (wrapHandler agent (js ''job'') (CRef 0) quiet named_world) = Inr ()
   \<and> store (snd (wrapHandler agent (js ''job'') (CRef 0) quiet named_world)) 0 (js ''txName'')
       = Some (JStr (js ''job''))
   \<and> fresh (snd (wrapHandler agent (js ''job'') (CRef 0) quiet named_world)) = fresh named_world"
proof -
  have f: "fresh world0 = 0" by (simp add: world0_def)
  from wrapHandler_context_in_place [of CUndefined world0 "js ''job''" quiet 0]
    wrapHandler_context_in_place [of "CRef 0" named_world "js ''job''" quiet 0]
  show ?thesis
    by (simp add: quiet_def f callback_world_frame)
qed

section \<open>Segments\<close>

text \<open>
  C7. For a context whose \<open>txName\<close> is the string \<open>n\<close>, \<open>wrapHandlerSegment\<close> starts the
  segment of the backend under the name \<open>n\<close> followed by \<open>-segment\<close> when the segment name
  is absent or empty, and under the given name otherwise, with the flag \<open>true\<close> and the
  work it was given.
\<close>

theorem default_segment_name:
  assumes "get_prop w traceContext (js ''txName'') = JStr n"
  shows "wrapHandlerSegment nr segmentName traceContext work w =
           (let (r, w') = startSegment nr
                            (if segmentName = None \<or> segmentName = Some []
                             then n @ js ''-segment'' else the segmentName)
                            True work w
            in (discard r, w'))"
  using assms
  by (cases segmentName) (simp_all add: wrapHandlerSegment_def segment_name_def)

theorem default_segment_name_witness:
  "get_prop named_world (CRef 0) (js ''txName'') = JStr (js ''Foo'')
   \<and> events (backend (snd (wrapHandlerSegment agent (Some []) (CRef 0) work0 named_world))) =
       [SegStart (js ''Foo-segment'') True, SegEnd (js ''Foo-segment'')]
   \<and> events (backend (snd (wrapHandlerSegment agent None (CRef 0) work0 named_world))) =
       [SegStart (js ''Foo-segment'') True, SegEnd (js ''Foo-segment'')]
   \<and> events (backend (snd (wrapHandlerSegment agent (Some (js ''load'')) (CRef 0) work0
        named_world))) =
       [SegStart (js ''load'') True, SegEnd (js ''load'')]"
proof -
  have n: "get_prop named_world (CRef 0) (js ''txName'') = JStr (js ''Foo'')"
    by (simp add: get_prop_def named_world_def world0_def)
  have e: "events (backend named_world) = []"
    by (simp add: named_world_def world0_def)
  have j: "js ''Foo'' @ js ''-segment'' = js ''Foo-segment''" "js ''load'' \<noteq> []"
    by (simp_all add: js_def)
  from default_segment_name [OF n, of agent "Some []" work0]
    default_segment_name [OF n, of agent None work0]
    default_segment_name [OF n, of agent "Some (js ''load'')" work0]
  show ?thesis
    using n by (simp add: work0_def record_event_def e j)
qed

section \<open>Reporting an error\<close>

text \<open>
  C9. \<open>onError\<close> does not look at its context: it is fulfilled, and the world after it is
  the world after one call of \<open>noticeError\<close> on the error. On the reference agent that
  is one more record, of the error against the transaction that is active; the
  transactions that are open and the store stay as they were.
\<close>

theorem onError_reports_once:
  "onError nr err c1 w = onError nr err c2 w
   \<and> onError nr err c1 w = (Inr (), noticeError nr err w)
   \<and> fst (onError agent err c1 w0) = Inr ()
   \<and> events (backend (snd (onError agent err c1 w0))) =
       events (backend w0) @ [Noticed (current w0) err]
   \<and> active (backend (snd (onError agent err c1 w0))) = active (backend w0)
   \<and> store (snd (onError agent err c1 w0)) = store w0"
  by (simp add: onError_def record_event_def)

theorem onError_reports_once_witness:
  "onError agent (Error (js ''boom'')) (CRef 0) world0 =
     onError agent (Error (js ''boom'')) CUndefined world0
   \<and> fst (onError agent (Error (js ''boom'')) (CRef 0) world0) = Inr ()
   \<and> events (backend (snd (onError agent (Error (js ''boom'')) (CRef 0) world0))) =
       [Noticed TxnStub (Error (js ''boom''))]"
proof -
  have c: "current world0 = TxnStub" and e: "events (backend world0) = []"
    by (simp_all add: world0_def current_def)
  note r = onError_reports_once
    [of agent "Error (js ''boom'')" "CRef 0" world0 CUndefined world0, unfolded c e append_Nil]
  from r [THEN conjunct1] r [THEN conjunct2, THEN conjunct2, THEN conjunct1]
    r [THEN conjunct2, THEN conjunct2, THEN conjunct2, THEN conjunct1]
  show ?thesis by blast
qed

section \<open>The provider\<close>

text \<open>
  C10. \<open>getTraceProvider\<close> gives \<open>undefined\<close> exactly for an absent agent, and for an
  agent the object whose five members are the five operations over that agent.
\<close>

theorem getTraceProvider_present:
  "getTraceProvider None = None
   \<and> getTraceProvider (Some nr) =
       Some \<lparr>tp_wrapHandler = wrapHandler nr,
             tp_wrapHandlerSegment = wrapHandlerSegment nr,
             tp_onError = onError nr,
             tp_serializeTraceMetadata = serializeTraceMetadata nr,
             tp_deserializeTraceMetadata = deserializeTraceMetadata\<rparr>
   \<and> (getTraceProvider newrelic = None) = (newrelic = None)"
  by (cases newrelic) (simp_all add: getTraceProvider_def)


theorem getTraceProvider_present_witness:
  "getTraceProvider (None :: nrstate newrelic option) = None
   \<and> map_option tp_onError (getTraceProvider (Some agent)) = Some (onError agent)
   \<and> getTraceProvider (Some agent) \<noteq> None"
  using getTraceProvider_present [of agent "Some agent"]
  by auto

section \<open>\<open>JSON.parse\<close> after \<open>JSON.stringify\<close>\<close>

lemma hex_value_digit: "n < 16 \<Longrightarrow> hex_value (hex_digit n) = Some n"
  by (simp add: hex_value_def hex_digit_def unat_of_nat Let_def)

lemma nibbles: "4096 * (n div 4096) + 256 * (n div 256 mod 16)
        + 16 * (n div 16 mod 16) + n mod 16 = (n::nat)"
proof -
  define a where "a = n div 16"
  define b where "b = n div 256"
  define c where "c = n div 4096"
  have ab: "a div 16 = b" by (simp add: a_def b_def div_mult2_eq [symmetric])
  have bc: "b div 16 = c" by (simp add: b_def c_def div_mult2_eq [symmetric])
  have 1: "n = 16 * a + n mod 16" by (simp add: a_def)
  have 2: "a = 16 * b + a mod 16" using mult_div_mod_eq [of 16 a] by (simp only: ab)
  have 3: "b = 16 * c + b mod 16" using mult_div_mod_eq [of 16 b] by (simp only: bc)
  define x where "x = n mod 16"
  define y where "y = a mod 16"
  define z where "z = b mod 16"
  from 1 2 3 have "n = 16 * (16 * (16 * c + z) + y) + x"
    unfolding x_def [symmetric] y_def [symmetric] z_def [symmetric] by metis
  then have "4096 * c + 256 * z + 16 * y + x = n" by simp
  then show ?thesis
    unfolding x_def y_def z_def a_def b_def c_def .
qed

lemma hex4_digits:
  "hex4 (hex_digit (unat c div 4096)) (hex_digit (unat c div 256 mod 16))
        (hex_digit (unat c div 16 mod 16)) (hex_digit (unat c mod 16)) = Some c"
proof -
  have "unat c < 65536" using unsigned_less [of c] by simp
  then have d: "unat c div 4096 < 16" by simp
  show ?thesis
    by (simp add: hex4_def hex_value_digit d nibbles)
qed

lemma string_chars_escape:
  "string_chars (unicode_escape c @ rest) = cons_fst c (string_chars rest)"
  by (simp add: unicode_escape_def hex4_digits)

lemma string_chars_raw:
  "c \<noteq> 0x22 \<Longrightarrow> c \<noteq> 0x5C \<Longrightarrow> \<not> c < 0x20 \<Longrightarrow>
   string_chars (c # rest) = cons_fst c (string_chars rest)"
  by simp

lemma surrogate_raw:
  "is_high_surrogate c \<or> is_low_surrogate c \<Longrightarrow> c \<noteq> 0x22 \<and> c \<noteq> 0x5C \<and> \<not> c < 0x20"
  by (auto simp: is_high_surrogate_def is_low_surrogate_def word_le_nat_alt word_less_nat_alt)

lemma high_surrogate_raw:
  "is_high_surrogate c \<Longrightarrow> c \<noteq> 0x22" "is_high_surrogate c \<Longrightarrow> c \<noteq> 0x5C"
  "is_high_surrogate c \<Longrightarrow> \<not> c < 0x20"
  using surrogate_raw [of c] by simp_all

lemma low_surrogate_raw:
  "is_low_surrogate c \<Longrightarrow> c \<noteq> 0x22" "is_low_surrogate c \<Longrightarrow> c \<noteq> 0x5C"
  "is_low_surrogate c \<Longrightarrow> \<not> c < 0x20"
  using surrogate_raw [of c] by simp_all

lemma string_chars_quote_units:
  "string_chars (quote_units s @ 0x22 # rest) = Some (s, rest)"
proof (induction s rule: quote_units.induct)
  case 1
  show ?case by simp
next
  case (2 c cs)
  let ?P = "\<lambda>s. string_chars (quote_units s @ 0x22 # rest) = Some (s, rest)"
  consider (short) "c = 0x08 \<or> c = 0x09 \<or> c = 0x0A \<or> c = 0x0C \<or> c = 0x0D \<or> c = 0x22 \<or> c = 0x5C"
    | (control) "\<not> (c = 0x08 \<or> c = 0x09 \<or> c = 0x0A \<or> c = 0x0C \<or> c = 0x0D \<or> c = 0x22 \<or> c = 0x5C)"
        "c < 0x20"
    | (high) "\<not> c < 0x20" "is_high_surrogate c"
    | (low) "\<not> c < 0x20" "\<not> is_high_surrogate c" "is_low_surrogate c"
    | (plain) "\<not> (c = 0x08 \<or> c = 0x09 \<or> c = 0x0A \<or> c = 0x0C \<or> c = 0x0D \<or> c = 0x22 \<or> c = 0x5C)"
        "\<not> c < 0x20" "\<not> is_high_surrogate c" "\<not> is_low_surrogate c"
    by blast
  then show ?case
  proof cases
    case short
    with "2.IH"(1-7) have ih: "?P cs" by fastforce
    from short show ?thesis
      by (elim disjE) (simp_all add: ih unescape_def cons_fst_def)
  next
    case control
    with "2.IH"(8) have ih: "?P cs" by simp
    from control show ?thesis
      by (simp add: string_chars_escape ih cons_fst_def)
  next
    case high
    note raw = high_surrogate_raw [OF high(2)]
    have ctl: "c \<noteq> 0x08" "c \<noteq> 0x09" "c \<noteq> 0x0A" "c \<noteq> 0x0C" "c \<noteq> 0x0D"
      using high(1) by auto
    show ?thesis
    proof (cases cs)
      case Nil
      with high raw ctl show ?thesis
        by (simp add: string_chars_escape cons_fst_def)
    next
      case (Cons d ds)
      show ?thesis
      proof (cases "is_low_surrogate d")
        case True
        from "2.IH"(9) [OF ctl raw(1,2) high(1,2) Cons True] have ih: "?P ds" .
        show ?thesis
          using Cons True high raw ctl low_surrogate_raw [OF True]
          by (simp add: ih cons_fst_def)
      next
        case False
        from "2.IH"(10) [OF ctl raw(1,2) high(1,2) Cons False] have ih: "?P cs" .
        have q: "quote_units (c # cs) = unicode_escape c @ quote_units cs"
          using Cons False high raw ctl by simp
        have "string_chars (quote_units (c # cs) @ 0x22 # rest) =
                cons_fst c (string_chars (quote_units cs @ 0x22 # rest))"
          by (simp only: q append_assoc string_chars_escape)
        then show ?thesis
          by (simp only: ih cons_fst_def option.map prod.case)
      qed
    qed
  next
    case low
    note raw = low_surrogate_raw [OF low(3)]
    have ctl: "c \<noteq> 0x08" "c \<noteq> 0x09" "c \<noteq> 0x0A" "c \<noteq> 0x0C" "c \<noteq> 0x0D"
      using low(1) by auto
    from "2.IH"(11) [OF ctl raw(1,2) low] have ih: "?P cs" .
    show ?thesis
      using low raw ctl by (simp add: string_chars_escape cons_fst_def ih)
  next
    case plain
    with "2.IH"(12) have ih: "?P cs" by simp
    from plain show ?thesis
      by (simp add: ih cons_fst_def)
  qed
qed

lemma tokenize_quote: "tokenize (quote s @ rest) = cons_tok (TStr s) (tokenize rest)"
  by (simp add: quote_def string_chars_quote_units is_ws_def)

lemma tokenize_punct:
  "tokenize (0x3A # rest) = cons_tok TColon (tokenize rest)"
  "tokenize (0x2C # rest) = cons_tok TComma (tokenize rest)"
  "tokenize (0x7B # rest) = cons_tok TLBrace (tokenize rest)"
  "tokenize (0x7D # rest) = cons_tok TRBrace (tokenize rest)"
  by (simp_all add: is_ws_def)

lemma tokenize_member:
  "tokenize (json_property p @ rest) =
     cons_tok (TStr (fst p)) (cons_tok TColon (cons_tok (TStr (snd p)) (tokenize rest)))"
  by (simp only: json_property_def append_assoc tokenize_quote append_Cons append_Nil tokenize_punct)

lemma tokenize_properties:
  "tokenize (join [0x2C] (map json_property hs) @ rest) = map_option ((@) (header_tokens hs)) (tokenize rest)"
proof (induction hs rule: header_tokens.induct)
  case 1
  show ?case by (simp add: option.map_ident)
next
  case (2 k v)
  show ?case
    unfolding list.map join.simps tokenize_member
    by (cases "tokenize rest") (simp_all add: cons_tok_def)
next
  case (3 k v p ps)
  have "tokenize (join [0x2C] (map json_property ((k, v) # p # ps)) @ rest) =
          cons_tok (TStr k) (cons_tok TColon (cons_tok (TStr v) (cons_tok TComma
            (tokenize (join [0x2C] (map json_property (p # ps)) @ rest)))))"
    unfolding list.map join.simps append_assoc
    by (simp only: tokenize_member append_Cons append_Nil tokenize_punct fst_conv snd_conv)
  then show ?case
    unfolding "3.IH"
    by (cases "tokenize rest") (simp_all add: cons_tok_def)
qed

lemma tokenize_stringify:
  "tokenize (JSON_stringify hs) = Some (TLBrace # header_tokens hs @ [TRBrace])"
proof -
  have "tokenize [0x7D] = Some [TRBrace]"
    by (simp add: is_ws_def cons_tok_def)
  then have "tokenize (join [0x2C] (map json_property hs) @ [0x7D]) = Some (header_tokens hs @ [TRBrace])"
    by (simp only: tokenize_properties option.map)
  then show ?thesis
    unfolding JSON_stringify_def
    by (simp only: append_Cons append_Nil tokenize_punct cons_tok_def option.map)
qed

lemma run_append:
  "run (xs @ ys) s = (case run xs s of None \<Rightarrow> None | Some s' \<Rightarrow> run ys s')"
  by (induction xs arbitrary: s) (auto split: option.splits)

lemma run_properties:
  "run (header_tokens (p # ps) @ ts) (Parsing (ObjKey kvs # st)) =
     run ts (Parsing (ObjNext (fold (\<lambda>(k, v) kvs. obj_put kvs k (JStr v)) (p # ps) kvs) # st))"
proof (induction ps arbitrary: p kvs)
  case Nil
  show ?case by (cases p) simp
next
  case (Cons q qs)
  show ?case
    using Cons.IH [of q] by (cases p) simp
qed

lemma run_object:
  "run (TLBrace # header_tokens hs @ [TRBrace]) (Parsing []) = Some (Done (JObj (header_object hs)))"
proof (cases hs)
  case Nil
  then show ?thesis by (simp add: header_object_def)
next
  case (Cons p ps)
  have start: "run (header_tokens (p # ps) @ ts) (Parsing (ObjStart # st)) =
                 run (header_tokens (p # ps) @ ts) (Parsing (ObjKey [] # st))" for ts st
    by (cases p; cases ps) auto
  show ?thesis
    unfolding Cons header_object_def
    by (simp only: run.simps step.simps expects_value.simps if_True option.case start run_properties)
       simp
qed

lemma parse_stringify: "JSON_parse (JSON_stringify hs) = Inr (JObj (header_object hs))"
  by (simp only: JSON_parse_def tokenize_stringify run_object option.case pstate.case)

lemma obj_put_new: "k \<notin> fst ` set kvs \<Longrightarrow> obj_put kvs k v = kvs @ [(k, v)]"
  by (induction kvs) auto

lemma fold_put_distinct:
  "distinct (map fst kvs @ map fst hs) \<Longrightarrow>
   fold (\<lambda>(k, v) kvs. obj_put kvs k (JStr v)) hs kvs = kvs @ map (\<lambda>(k, v). (k, JStr v)) hs"
proof (induction hs arbitrary: kvs)
  case Nil
  show ?case by simp
next
  case (Cons h hs)
  obtain k v where h: "h = (k, v)" by (cases h)
  from Cons.prems have new: "k \<notin> fst ` set kvs" and
    rest: "distinct (map fst (kvs @ [(k, JStr v)]) @ map fst hs)"
    by (auto simp: h)
  show ?case
    using Cons.IH [OF rest] by (simp add: h obj_put_new [OF new])
qed

lemma header_object_distinct:
  "distinct (map fst hs) \<Longrightarrow> header_object hs = map (\<lambda>(k, v). (k, JStr v)) hs"
  using fold_put_distinct [of "[]" hs] by (simp add: header_object_def)


section \<open>Round trip of the linkage\<close>

text \<open>
  C3. For every header mapping \<open>H\<close> (string keys, all different, to string values),
  \<open>deserializeTraceMetadata\<close> of the JSON text of \<open>H\<close> is fulfilled with a context whose
  \<open>distributedTraceHeaders\<close> is the object with the properties of \<open>H\<close>; and that text is what
  \<open>serializeTraceMetadata\<close> returns for a context whose transaction hands out \<open>H\<close>.
\<close>

theorem linkage_round_trip:
  assumes "distinct (map fst H)"
  shows "(\<exists>c' w'. deserializeTraceMetadata (JSON_stringify H) w = (Inr c', w')
             \<and> get_prop w' c' (js ''distributedTraceHeaders'') =
                 JObj (map (\<lambda>(k, v). (k, JStr v)) H))
       \<and> (\<forall>nr c t w0 w1.
             get_prop w0 c (js ''transaction'') = JTxn t
             \<and> insertDistributedTraceHeaders nr t [] w0 = (H, w1) \<longrightarrow>
             serializeTraceMetadata nr c w0 = (Inr (JSON_stringify H), w1))"
proof -
  have "deserializeTraceMetadata (JSON_stringify H) w =
          (Inr (CRef (fresh w)),
           set_prop (fresh w) (js ''distributedTraceHeaders'')
             (JObj (map (\<lambda>(k, v). (k, JStr v)) H)) (snd (new_object w)))"
    by (simp add: deserializeTraceMetadata_def parse_stringify header_object_distinct [OF assms]
        new_object_def)
  moreover have "get_prop (set_prop (fresh w) (js ''distributedTraceHeaders'')
             (JObj (map (\<lambda>(k, v). (k, JStr v)) H)) (snd (new_object w))) (CRef (fresh w))
             (js ''distributedTraceHeaders'') = JObj (map (\<lambda>(k, v). (k, JStr v)) H)"
    by (simp add: get_prop_def set_prop_def)
  moreover have "serializeTraceMetadata nr c w0 = (Inr (JSON_stringify H), w1)"
    if "get_prop w0 c (js ''transaction'') = JTxn t"
      and "insertDistributedTraceHeaders nr t [] w0 = (H, w1)"
    for nr :: "'c newrelic" and c t w0 w1
    using that by (simp add: serializeTraceMetadata_def)
  ultimately show ?thesis by blast
qed

theorem linkage_round_trip_witness:
  "distinct (map fst headers0)
   \<and> (\<exists>c' w'. deserializeTraceMetadata (JSON_stringify headers0) world0 = (Inr c', w')
          \<and> get_prop w' c' (js ''distributedTraceHeaders'') =
              JObj [(js ''traceparent'', JStr (js ''00-0af7651916cd43dd-b7ad6b7169203331-01'')),
                    (js ''tracestate'', JStr (js ''33@nr=0-0-33-2827902-b7ad6b7169203331''))])
   \<and> serializeTraceMetadata agent (CRef 0) serializing_world =
       (Inr (JSON_stringify headers0), record_event (Inserted (Txn 0)) serializing_world)"
proof -
  have d: "distinct (map fst headers0)"
    by (simp add: headers0_def js_def)
  have m: "map (\<lambda>(k, v). (k, JStr v)) headers0 =
             [(js ''traceparent'', JStr (js ''00-0af7651916cd43dd-b7ad6b7169203331-01'')),
              (js ''tracestate'', JStr (js ''33@nr=0-0-33-2827902-b7ad6b7169203331''))]"
    by (simp add: headers0_def)
  have k: "js ''traceparent'' \<noteq> js ''tracestate''"
    by (simp add: js_def)
  have t: "get_prop serializing_world (CRef 0) (js ''transaction'') = JTxn (Txn 0)"
    by (simp add: get_prop_def serializing_world_def)
  have i: "insertDistributedTraceHeaders agent (Txn 0) [] serializing_world =
             (headers0, record_event (Inserted (Txn 0)) serializing_world)"
    by (simp add: agent_def) (simp add: serializing_world_def headers0_def k)
  note rt = linkage_round_trip [OF d, of world0]
  from rt [THEN conjunct2, rule_format, of serializing_world "CRef 0" "Txn 0" agent, OF conjI, OF t i]
    rt [THEN conjunct1, unfolded m] d
  show ?thesis by simp
qed

section \<open>Malformed tokens\<close>

lemma typeof_string: "(typeof v = js ''string'') = (\<exists>s. v = JStr s)"
  by (cases v) (simp_all add: js_def)

text \<open>
  The second file degrades: a token that is not a string, or a string that
  \<open>JSON.parse\<close> rejects, gives a new empty context, never a rejection.
\<close>

lemma deserialize_part_000_degrades:
  assumes "\<And>s. traceMetadata = JStr s \<Longrightarrow> \<exists>e. JSON_parse s = Inl e"
  shows "deserializeTraceMetadata_part_000 traceMetadata w =
           (Inr (CRef (fresh w)), snd (new_object w))
       \<and> store (snd (new_object w)) (fresh w) = Map.empty"
proof (cases "\<exists>s. traceMetadata = JStr s")
  case True
  then obtain s where s: "traceMetadata = JStr s" ..
  with assms obtain e where "JSON_parse s = Inl e" by blast
  then show ?thesis
    by (simp add: deserializeTraceMetadata_part_000_def s new_object_def)
next
  case False
  then have "typeof traceMetadata \<noteq> js ''string''"
    by (simp add: typeof_string)
  then show ?thesis
    by (simp add: deserializeTraceMetadata_part_000_def new_object_def)
qed

lemma deserialize_part_000_total:
  "\<exists>c w'. deserializeTraceMetadata_part_000 traceMetadata w = (Inr c, w')"
  by (cases traceMetadata)
    (auto simp: deserializeTraceMetadata_part_000_def new_object_def js_def Let_def
      split: sum.splits)

lemma not_json: "JSON_parse (js ''not-json'') = Inl SyntaxError"
  by (simp add: JSON_parse_def js_def is_ws_def is_digit_def)

text \<open>
  C1. \<open>deserializeTraceMetadata\<close> of \<open>src/index.ts\<close> on the malformed token
  \<open>not-json\<close>: the promise is rejected with the \<open>SyntaxError\<close> of \<open>JSON.parse\<close>, and no
  context is made.
\<close>

theorem deserialize_rejects_malformed:
  "deserializeTraceMetadata (js ''not-json'') world0 = (Inl SyntaxError, world0)
   \<and> deserializeTraceMetadata_part_000 (JStr (js ''not-json'')) world0 =
       (Inr (CRef 0), snd (new_object world0))"
proof -
  have "deserializeTraceMetadata_part_000 (JStr (js ''not-json'')) world0 =
          (Inr (CRef (fresh world0)), snd (new_object world0))"
    using deserialize_part_000_degrades [of "JStr (js ''not-json'')" world0]
    by (simp add: not_json)
  then show ?thesis
    by (simp add: deserializeTraceMetadata_def not_json world0_def)
qed

end
